theory Spec2Isabelle
  imports Complex_Main "HOL-Library.AList" "HOL-Library.Sublist"
begin

section \<open>Data model of the recorder node\<close>

text \<open>
  Values that travel through the node.  A message is a Python object: a table of named
  attributes, each again a value.  Leaves are \<open>None\<close>, booleans, integers, floats
  (carried as reals, no arithmetic is ever done on them) and strings.
\<close>

datatype pyval =
    PNone
  | PBool bool
  | PInt int
  | PFloat real
  | PStr string
  | PObj "(string \<times> pyval) list"

datatype py_error = AttributeError | ValueError | OtherError string

text \<open>
  \<open>getattr(value, attr)\<close>: the attribute of that name when the object has one, and
  \<open>AttributeError\<close> otherwise.  The fields of a message are the attributes of a
  \<open>PObj\<close>.  Of Python's built-in values the data attributes are modelled: \<open>real\<close>,
  \<open>imag\<close>, \<open>numerator\<close> and \<open>denominator\<close> of an integer or a boolean (a boolean
  answers as the integer 1 or 0), \<open>real\<close> and \<open>imag\<close> of a float.  Their methods and
  special attributes are objects that are no data and are not part of the model: such a
  name raises \<open>AttributeError\<close> here.
\<close>

definition bool_int :: "bool \<Rightarrow> int" where
  "bool_int b = (if b then 1 else 0)"

fun getattr_py :: "pyval \<Rightarrow> string \<Rightarrow> py_error + pyval" where
  "getattr_py (PObj attrs) attr =
     (case map_of attrs attr of None \<Rightarrow> Inl AttributeError | Some v \<Rightarrow> Inr v)"
| "getattr_py (PInt i) attr =
     (if attr = ''real'' then Inr (PInt i)
      else if attr = ''imag'' then Inr (PInt 0)
      else if attr = ''numerator'' then Inr (PInt i)
      else if attr = ''denominator'' then Inr (PInt 1)
      else Inl AttributeError)"
| "getattr_py (PBool b) attr =
     (if attr = ''real'' then Inr (PInt (bool_int b))
      else if attr = ''imag'' then Inr (PInt 0)
      else if attr = ''numerator'' then Inr (PInt (bool_int b))
      else if attr = ''denominator'' then Inr (PInt 1)
      else Inl AttributeError)"
| "getattr_py (PFloat x) attr =
     (if attr = ''real'' then Inr (PFloat x)
      else if attr = ''imag'' then Inr (PFloat 0)
      else Inl AttributeError)"
| "getattr_py _ attr = Inl AttributeError"

text \<open>\<open>field_path.split('.')\<close>: the pieces between the dots; never the empty list.\<close>

fun split_dot :: "string \<Rightarrow> string list" where
  "split_dot [] = [[]]"
| "split_dot (c # cs) =
     (if c = CHR ''.'' then [] # split_dot cs
      else (c # hd (split_dot cs)) # tl (split_dot cs))"

text \<open>One entry of \<open>self.fields\<close>.\<close>

record field_spec =
  name :: string
  topic_name :: string
  field_path :: string

text \<open>The configuration file: \<open>config['subscriptions']\<close> is a list of these.\<close>

record field_cfg =
  cfg_name :: string
  cfg_field_path :: string

record sub_cfg =
  sub_topic_name :: string
  sub_message_type :: string
  sub_fields :: "field_cfg list"

datatype msg_class = MsgClass string

text \<open>
  What the node asks of the ROS client library: \<open>get_message\<close> resolves a type name
  (it may raise, return \<open>None\<close>, or return the class), and \<open>create_timer\<close> may refuse
  a period by raising.
\<close>

record ros_env =
  get_message :: "string \<Rightarrow> py_error + msg_class option"
  create_timer :: "real \<Rightarrow> py_error option"

datatype level = INFO | ERROR

datatype log_text =
    CouldNotImport string
  | CouldNotGetField string pyval
  | NoDataToWrite
  | DataWritten string

text \<open>A row is a Python dict from output name to value: insertion ordered, keys unique.\<close>

type_synonym row = "(string \<times> pyval) list"

record node =
  output_csv :: string
  recorded_subscriptions :: "string \<rightharpoonup> (msg_class \<times> field_cfg list)"
  latest_messages :: "string \<rightharpoonup> pyval"
  self_fields :: "field_spec list"
  data :: "row list"
  timer :: "real option"
  logger :: "(level \<times> log_text) list"

definition log_error :: "node \<Rightarrow> log_text \<Rightarrow> node" where
  "log_error n t = n\<lparr>logger := logger n @ [(ERROR, t)]\<rparr>"

definition log_info :: "node \<Rightarrow> log_text \<Rightarrow> node" where
  "log_info n t = n\<lparr>logger := logger n @ [(INFO, t)]\<rparr>"

section \<open>Construction\<close>

text \<open>The loop of \<open>__init__\<close> over \<open>config['subscriptions']\<close>.\<close>

fun init_subscriptions :: "ros_env \<Rightarrow> sub_cfg list \<Rightarrow> node \<Rightarrow> py_error + node" where
  "init_subscriptions env [] n = Inr n"
| "init_subscriptions env (sub # subs) n =
     (case get_message env (sub_message_type sub) of
        Inl e \<Rightarrow> Inl e
      | Inr None \<Rightarrow>
          init_subscriptions env subs (log_error n (CouldNotImport (sub_message_type sub)))
      | Inr (Some msg_module) \<Rightarrow>
          init_subscriptions env subs
            (n\<lparr>recorded_subscriptions :=
                 (recorded_subscriptions n)
                   (sub_topic_name sub \<mapsto> (msg_module, sub_fields sub)),
               latest_messages := (latest_messages n)(sub_topic_name sub \<mapsto> PNone),
               self_fields := self_fields n @
                 map (\<lambda>field. \<lparr>name = cfg_name field,
                                topic_name = sub_topic_name sub,
                                field_path = cfg_field_path field\<rparr>)
                     (sub_fields sub)\<rparr>))"

text \<open>
  \<open>__init__\<close>.  The parsed configuration and the values of the parameters
  \<open>interval\<close> and \<open>output_csv\<close> are its inputs; the node starts with empty
  dictionaries and lists and no timer.  A subscription that has been created is its entry
  in \<open>recorded_subscriptions\<close>, the timer that has been created is its period in
  \<open>timer\<close>.  The interval reaches \<open>create_timer\<close> as it is, after the loop.
\<close>

definition new_node :: "string \<Rightarrow> node" where
  "new_node out =
     \<lparr>output_csv = out, recorded_subscriptions = Map.empty, latest_messages = Map.empty,
      self_fields = [], data = [], timer = None, logger = []\<rparr>"

definition DataRecorderNode_init ::
  "ros_env \<Rightarrow> sub_cfg list \<Rightarrow> real \<Rightarrow> string \<Rightarrow> py_error + node" where
  "DataRecorderNode_init env config interval out =
     (case init_subscriptions env config (new_node out) of
        Inl e \<Rightarrow> Inl e
      | Inr n \<Rightarrow>
          (case create_timer env interval of
             Some e \<Rightarrow> Inl e
           | None \<Rightarrow> Inr (n\<lparr>timer := Some interval\<rparr>)))"

section \<open>Callbacks\<close>

definition message_callback :: "node \<Rightarrow> pyval \<Rightarrow> string \<Rightarrow> node" where
  "message_callback n msg topic = n\<lparr>latest_messages := (latest_messages n)(topic \<mapsto> msg)\<rparr>"

text \<open>The \<open>for attr in attrs\<close> loop of \<open>get_field_value\<close>.\<close>

fun getattr_chain :: "pyval \<Rightarrow> string list \<Rightarrow> py_error + pyval" where
  "getattr_chain v [] = Inr v"
| "getattr_chain v (attr # attrs) =
     (case getattr_py v attr of Inl e \<Rightarrow> Inl e | Inr v' \<Rightarrow> getattr_chain v' attrs)"

text \<open>
  \<open>get_field_value\<close>: only \<open>AttributeError\<close> is caught; it is logged and \<open>None\<close> is
  returned.  Any other exception would leave the function.
\<close>

definition get_field_value :: "node \<Rightarrow> pyval \<Rightarrow> string \<Rightarrow> py_error + (pyval \<times> node)" where
  "get_field_value n msg path =
     (case getattr_chain msg (split_dot path) of
        Inr v \<Rightarrow> Inr (v, n)
      | Inl AttributeError \<Rightarrow> Inr (PNone, log_error n (CouldNotGetField path msg))
      | Inl e \<Rightarrow> Inl e)"

text \<open>\<open>self.latest_messages.get(topic_name)\<close>: \<open>None\<close> for a key that is not there.\<close>

definition dict_get :: "(string \<rightharpoonup> pyval) \<Rightarrow> string \<Rightarrow> pyval" where
  "dict_get d k = (case d k of None \<Rightarrow> PNone | Some v \<Rightarrow> v)"

text \<open>The loop of \<open>record_data\<close> over \<open>self.fields\<close>, building \<open>row\<close>.\<close>

fun record_fields :: "node \<Rightarrow> field_spec list \<Rightarrow> row \<Rightarrow> py_error + (row \<times> node)" where
  "record_fields n [] r = Inr (r, n)"
| "record_fields n (field # rest) r =
     (let msg = dict_get (latest_messages n) (topic_name field) in
      if msg \<noteq> PNone then
        (case get_field_value n msg (field_path field) of
           Inl e \<Rightarrow> Inl e
         | Inr (v, n') \<Rightarrow>
             if v \<noteq> PNone then record_fields n' rest (AList.update (name field) v r)
             else record_fields n' rest (AList.update (name field) (PStr []) r))
      else record_fields n rest (AList.update (name field) (PStr []) r))"

definition record_data :: "node \<Rightarrow> py_error + node" where
  "record_data n =
     (case record_fields n (self_fields n) [] of
        Inl e \<Rightarrow> Inl e
      | Inr (r, n') \<Rightarrow> Inr (n'\<lparr>data := data n' @ [r]\<rparr>))"

section \<open>Export\<close>

text \<open>
  \<open>csv.DictWriter.writerow\<close> with the default \<open>extrasaction='raise'\<close> and
  \<open>restval=''\<close>: a key of the row that is no field name raises \<open>ValueError\<close>, otherwise
  the cells are the row's values in the order of the field names.  A cell is kept as the
  value handed to the writer; its rendering as text is the csv module's.
\<close>

definition writerow :: "string list \<Rightarrow> row \<Rightarrow> py_error + pyval list" where
  "writerow fieldnames r =
     (if filter (\<lambda>k. k \<notin> set fieldnames) (map fst r) \<noteq> [] then Inl ValueError
      else Inr (map (\<lambda>k. case map_of r k of None \<Rightarrow> PStr [] | Some v \<Rightarrow> v) fieldnames))"

fun writerows :: "string list \<Rightarrow> row list \<Rightarrow> py_error + pyval list list" where
  "writerows fieldnames [] = Inr []"
| "writerows fieldnames (r # rs) =
     (case writerow fieldnames r of
        Inl e \<Rightarrow> Inl e
      | Inr cells \<Rightarrow>
          (case writerows fieldnames rs of Inl e \<Rightarrow> Inl e | Inr ls \<Rightarrow> Inr (cells # ls)))"

text \<open>
  \<open>write_csv\<close> returns the file it writes, or no file: the path, the header line
  and the lines of cells in the order written.
\<close>

record csv_file =
  path :: string
  header :: "string list"
  body :: "pyval list list"

definition write_csv :: "node \<Rightarrow> py_error + (node \<times> csv_file option)" where
  "write_csv n =
     (if data n = [] then Inr (log_info n NoDataToWrite, None)
      else
        (let field_names = map name (self_fields n) in
         case writerows field_names (data n) of
           Inl e \<Rightarrow> Inl e
         | Inr ls \<Rightarrow>
             Inr (log_info n (DataWritten (output_csv n)),
                  Some \<lparr>path = output_csv n, header = field_names, body = ls\<rparr>)))"

section \<open>Runs of the node\<close>

text \<open>
  Both callbacks hold \<open>data_lock\<close> for their whole body, so a run of the spinning node is
  a sequence of whole callbacks: a message arriving on a topic, or a tick of the timer.
\<close>

datatype event = Msg string pyval | Tick

fun run :: "node \<Rightarrow> event list \<Rightarrow> py_error + node" where
  "run n [] = Inr n"
| "run n (Msg topic msg # evs) = run (message_callback n msg topic) evs"
| "run n (Tick # evs) = (case record_data n of Inl e \<Rightarrow> Inl e | Inr n' \<Rightarrow> run n' evs)"


section \<open>Closed forms used in the proofs\<close>

text \<open>
  What the extraction loop yields once the caught exception is folded into \<open>None\<close>,
  the value one field contributes to a row, and the row a whole pass builds.  The
  lemmas below show that the loops above compute exactly these.
\<close>

definition extracted :: "pyval \<Rightarrow> string \<Rightarrow> pyval" where
  "extracted msg p = (case getattr_chain msg (split_dot p) of Inl e \<Rightarrow> PNone | Inr v \<Rightarrow> v)"

definition field_cell :: "(string \<rightharpoonup> pyval) \<Rightarrow> field_spec \<Rightarrow> pyval" where
  "field_cell lm f =
     (if dict_get lm (topic_name f) = PNone then PStr []
      else if extracted (dict_get lm (topic_name f)) (field_path f) = PNone then PStr []
      else extracted (dict_get lm (topic_name f)) (field_path f))"

definition build_row :: "(string \<rightharpoonup> pyval) \<Rightarrow> field_spec list \<Rightarrow> row \<Rightarrow> row" where
  "build_row lm fs r = foldl (\<lambda>r f. AList.update (name f) (field_cell lm f) r) r fs"

text \<open>
  The entries \<open>__init__\<close> appends to \<open>self.fields\<close> for one subscription, whether
  \<open>get_message\<close> returns a class for a subscription or raises for it, and the cells
  \<open>writerow\<close> emits for one row.
\<close>

definition field_specs_of :: "sub_cfg \<Rightarrow> field_spec list" where
  "field_specs_of sub =
     map (\<lambda>field. \<lparr>name = cfg_name field, topic_name = sub_topic_name sub,
                    field_path = cfg_field_path field\<rparr>) (sub_fields sub)"

definition importable :: "ros_env \<Rightarrow> sub_cfg \<Rightarrow> bool" where
  "importable env sub =
     (case get_message env (sub_message_type sub) of Inr (Some c) \<Rightarrow> True | _ \<Rightarrow> False)"

definition raises :: "ros_env \<Rightarrow> sub_cfg \<Rightarrow> bool" where
  "raises env sub = (case get_message env (sub_message_type sub) of Inl e \<Rightarrow> True | _ \<Rightarrow> False)"

definition row_cells :: "string list \<Rightarrow> row \<Rightarrow> pyval list" where
  "row_cells names r = map (\<lambda>k. case map_of r k of None \<Rightarrow> PStr [] | Some v \<Rightarrow> v) names"

section \<open>A concrete node\<close>

text \<open>
  A client library that knows one message type and refuses negative timer periods; a
  configuration with an unknown type first, then an odometry topic with three fields, two
  of them under the same output name; the node this configuration constructs; one message;
  and the node after the message has arrived, and after a tick, the message and a second
  tick.
\<close>

definition example_env :: ros_env where
  "example_env =
     \<lparr>get_message = (\<lambda>s. if s = ''nav_msgs/msg/Odometry'' then Inr (Some (MsgClass s)) else Inr None),
      create_timer = (\<lambda>p. if p < 0 then Some ValueError else None)\<rparr>"

definition example_config :: "sub_cfg list" where
  "example_config =
     [\<lparr>sub_topic_name = ''/gps'', sub_message_type = ''no_such/msg/Fix'',
       sub_fields = [\<lparr>cfg_name = ''lat'', cfg_field_path = ''latitude''\<rparr>]\<rparr>,
      \<lparr>sub_topic_name = ''/odom'', sub_message_type = ''nav_msgs/msg/Odometry'',
       sub_fields = [\<lparr>cfg_name = ''x'', cfg_field_path = ''pose.x''\<rparr>,
                     \<lparr>cfg_name = ''pose'', cfg_field_path = ''pose''\<rparr>,
                     \<lparr>cfg_name = ''x'', cfg_field_path = ''pose.y''\<rparr>]\<rparr>]"

definition example_node :: "real \<Rightarrow> node" where
  "example_node i =
     \<lparr>output_csv = ''output.csv'',
      recorded_subscriptions =
        [''/odom'' \<mapsto> (MsgClass ''nav_msgs/msg/Odometry'',
           [\<lparr>cfg_name = ''x'', cfg_field_path = ''pose.x''\<rparr>,
            \<lparr>cfg_name = ''pose'', cfg_field_path = ''pose''\<rparr>,
            \<lparr>cfg_name = ''x'', cfg_field_path = ''pose.y''\<rparr>])],
      latest_messages = [''/odom'' \<mapsto> PNone],
      self_fields =
        [\<lparr>name = ''x'', topic_name = ''/odom'', field_path = ''pose.x''\<rparr>,
         \<lparr>name = ''pose'', topic_name = ''/odom'', field_path = ''pose''\<rparr>,
         \<lparr>name = ''x'', topic_name = ''/odom'', field_path = ''pose.y''\<rparr>],
      data = [], timer = Some i,
      logger = [(ERROR, CouldNotImport ''no_such/msg/Fix'')]\<rparr>"

definition example_msg :: pyval where
  "example_msg = PObj [(''pose'', PObj [(''x'', PInt 5), (''y'', PInt 7)])]"

definition example_node_msg :: node where
  "example_node_msg = (example_node 0.05)\<lparr>latest_messages := [''/odom'' \<mapsto> example_msg]\<rparr>"

definition example_node_ticked :: node where
  "example_node_ticked =
     (example_node 0.05)\<lparr>latest_messages := [''/odom'' \<mapsto> example_msg],
        data := [[(''x'', PStr []), (''pose'', PStr [])],
                 [(''x'', PInt 7), (''pose'', PObj [(''x'', PInt 5), (''y'', PInt 7)])]]\<rparr>"





section \<open>Properties of the loops\<close>

lemma split_dot_nonempty: "split_dot s \<noteq> []"
  by (induction s) auto

lemma getattr_py_error: "getattr_py v a = Inl e \<Longrightarrow> e = AttributeError"
  by (cases v) (auto split: option.splits if_splits)

lemma getattr_chain_error: "getattr_chain v as = Inl e \<Longrightarrow> e = AttributeError"
  by (induction as arbitrary: v) (auto split: sum.splits dest: getattr_py_error)

lemma get_field_value_result:
  "\<exists>lg. get_field_value n msg p = Inr (extracted msg p, n\<lparr>logger := logger n @ lg\<rparr>)"
proof (cases "getattr_chain msg (split_dot p)")
  case (Inl e)
  then have "e = AttributeError" by (rule getattr_chain_error)
  with Inl have "get_field_value n msg p
      = Inr (extracted msg p, n\<lparr>logger := logger n @ [(ERROR, CouldNotGetField p msg)]\<rparr>)"
    by (simp add: get_field_value_def extracted_def log_error_def)
  then show ?thesis by blast
next
  case (Inr v)
  then have "get_field_value n msg p = Inr (extracted msg p, n\<lparr>logger := logger n @ []\<rparr>)"
    by (simp add: get_field_value_def extracted_def)
  then show ?thesis by blast
qed

lemma record_fields_result:
  "\<exists>lg. record_fields n fs r = Inr (build_row (latest_messages n) fs r, n\<lparr>logger := logger n @ lg\<rparr>)"
proof (induction fs arbitrary: n r)
  case Nil
  have "record_fields n [] r = Inr (build_row (latest_messages n) [] r, n\<lparr>logger := logger n @ []\<rparr>)"
    by (simp add: build_row_def)
  then show ?case by blast
next
  case (Cons f fs)
  let ?lm = "latest_messages n"
  let ?msg = "dict_get ?lm (topic_name f)"
  let ?r' = "AList.update (name f) (field_cell ?lm f) r"
  have step: "build_row ?lm (f # fs) r = build_row ?lm fs ?r'"
    by (simp add: build_row_def)
  show ?case
  proof (cases "?msg = PNone")
    case True
    then have "record_fields n (f # fs) r = record_fields n fs ?r'"
      by (simp add: field_cell_def)
    with Cons.IH [of n ?r'] step show ?thesis by simp
  next
    case False
    obtain lg where g: "get_field_value n ?msg (field_path f)
        = Inr (extracted ?msg (field_path f), n\<lparr>logger := logger n @ lg\<rparr>)"
      using get_field_value_result by blast
    let ?n' = "n\<lparr>logger := logger n @ lg\<rparr>"
    from False g have "record_fields n (f # fs) r = record_fields ?n' fs ?r'"
      by (simp add: field_cell_def)
    moreover obtain lg' where "record_fields ?n' fs ?r'
        = Inr (build_row (latest_messages ?n') fs ?r', ?n'\<lparr>logger := logger ?n' @ lg'\<rparr>)"
      using Cons.IH [of ?n' ?r'] by blast
    ultimately have "record_fields n (f # fs) r
        = Inr (build_row ?lm (f # fs) r, n\<lparr>logger := logger n @ (lg @ lg')\<rparr>)"
      using step by simp
    then show ?thesis by blast
  qed
qed

lemma record_data_result:
  "\<exists>lg. record_data n = Inr (n\<lparr>logger := logger n @ lg,
        data := data n @ [build_row (latest_messages n) (self_fields n) []]\<rparr>)"
proof -
  obtain lg where "record_fields n (self_fields n) []
      = Inr (build_row (latest_messages n) (self_fields n) [], n\<lparr>logger := logger n @ lg\<rparr>)"
    using record_fields_result by blast
  then have "record_data n = Inr (n\<lparr>logger := logger n @ lg,
        data := data n @ [build_row (latest_messages n) (self_fields n) []]\<rparr>)"
    by (simp add: record_data_def)
  then show ?thesis by blast
qed

lemma build_row_keys: "fst ` set (build_row lm fs r) = fst ` set r \<union> name ` set fs"
  unfolding build_row_def
  by (induction fs arbitrary: r) (auto simp: dom_update)

lemma build_row_distinct: "distinct (map fst r) \<Longrightarrow> distinct (map fst (build_row lm fs r))"
  unfolding build_row_def
  by (induction fs arbitrary: r) (auto simp: distinct_update)

lemma build_row_snoc:
  "build_row lm (fs @ [f]) r = AList.update (name f) (field_cell lm f) (build_row lm fs r)"
  by (simp add: build_row_def)

lemma build_row_lookup:
  "map_of (build_row lm fs r) k =
     (if filter (\<lambda>f. name f = k) fs = [] then map_of r k
      else Some (field_cell lm (last (filter (\<lambda>f. name f = k) fs))))"
proof (induction fs rule: rev_induct)
  case Nil
  then show ?case by (simp add: build_row_def)
next
  case (snoc f fs)
  then show ?case by (simp add: build_row_snoc update_conv')
qed

lemma run_append: "run n (xs @ ys) = (case run n xs of Inl e \<Rightarrow> Inl e | Inr n' \<Rightarrow> run n' ys)"
proof (induction xs arbitrary: n)
  case Nil
  then show ?case by simp
next
  case (Cons x xs)
  then show ?case by (cases x) (auto split: sum.splits)
qed

lemma run_result:
  "\<exists>lg rs lm. run n evs = Inr (n\<lparr>latest_messages := lm, logger := logger n @ lg, data := data n @ rs\<rparr>)
     \<and> length rs = length (filter (\<lambda>e. e = Tick) evs)
     \<and> (\<forall>r\<in>set rs. fst ` set r = name ` set (self_fields n) \<and> distinct (map fst r))"
proof (induction evs arbitrary: n)
  case Nil
  have "run n [] = Inr (n\<lparr>latest_messages := latest_messages n, logger := logger n @ [], data := data n @ []\<rparr>)"
    by simp
  then show ?case by fastforce
next
  case (Cons ev evs)
  show ?case
  proof (cases ev)
    case (Msg k v)
    let ?n1 = "message_callback n v k"
    obtain lg rs lm where r: "run ?n1 evs = Inr (?n1\<lparr>latest_messages := lm, logger := logger ?n1 @ lg, data := data ?n1 @ rs\<rparr>)"
      and l: "length rs = length (filter (\<lambda>e. e = Tick) evs)"
      and k: "\<forall>r\<in>set rs. fst ` set r = name ` set (self_fields ?n1) \<and> distinct (map fst r)"
      using Cons.IH [of ?n1] by blast
    from r Msg have "run n (ev # evs) = Inr (n\<lparr>latest_messages := lm, logger := logger n @ lg, data := data n @ rs\<rparr>)"
      by (simp add: message_callback_def)
    moreover from l Msg have "length rs = length (filter (\<lambda>e. e = Tick) (ev # evs))" by simp
    moreover from k have "\<forall>r\<in>set rs. fst ` set r = name ` set (self_fields n) \<and> distinct (map fst r)"
      by (simp add: message_callback_def)
    ultimately show ?thesis by blast
  next
    case Tick
    let ?r = "build_row (latest_messages n) (self_fields n) []"
    obtain lg0 where d: "record_data n = Inr (n\<lparr>logger := logger n @ lg0, data := data n @ [?r]\<rparr>)"
      using record_data_result by blast
    let ?n1 = "n\<lparr>logger := logger n @ lg0, data := data n @ [?r]\<rparr>"
    obtain lg rs lm where r: "run ?n1 evs = Inr (?n1\<lparr>latest_messages := lm, logger := logger ?n1 @ lg, data := data ?n1 @ rs\<rparr>)"
      and l: "length rs = length (filter (\<lambda>e. e = Tick) evs)"
      and k: "\<forall>r\<in>set rs. fst ` set r = name ` set (self_fields ?n1) \<and> distinct (map fst r)"
      using Cons.IH [of ?n1] by blast
    from r d Tick have "run n (ev # evs) = Inr (n\<lparr>latest_messages := lm, logger := logger n @ (lg0 @ lg), data := data n @ (?r # rs)\<rparr>)"
      by simp
    moreover from l Tick have "length (?r # rs) = length (filter (\<lambda>e. e = Tick) (ev # evs))" by simp
    moreover from k have "\<forall>r\<in>set (?r # rs). fst ` set r = name ` set (self_fields n) \<and> distinct (map fst r)"
      by (simp add: build_row_keys build_row_distinct)
    ultimately show ?thesis by blast
  qed
qed

lemma init_subscriptions_keeps:
  "init_subscriptions env cfg n = Inr n' \<Longrightarrow>
     data n' = data n \<and> timer n' = timer n \<and> output_csv n' = output_csv n
     \<and> (dict_get (latest_messages n) k = PNone \<longrightarrow> dict_get (latest_messages n') k = PNone)"
proof (induction cfg arbitrary: n)
  case Nil
  then show ?case by simp
next
  case (Cons sub subs)
  show ?case
  proof (cases "get_message env (sub_message_type sub)")
    case (Inl e)
    with Cons.prems show ?thesis by simp
  next
    case (Inr mc)
    show ?thesis
    proof (cases mc)
      case None
      with Inr Cons.prems
      have "init_subscriptions env subs (log_error n (CouldNotImport (sub_message_type sub))) = Inr n'"
        by simp
      from Cons.IH [OF this] show ?thesis by (simp add: log_error_def)
    next
      case (Some c)
      let ?n1 = "n\<lparr>recorded_subscriptions :=
                 (recorded_subscriptions n) (sub_topic_name sub \<mapsto> (c, sub_fields sub)),
               latest_messages := (latest_messages n)(sub_topic_name sub \<mapsto> PNone),
               self_fields := self_fields n @ field_specs_of sub\<rparr>"
      from Some Inr Cons.prems have "init_subscriptions env subs ?n1 = Inr n'"
        by (simp add: field_specs_of_def)
      from Cons.IH [OF this] show ?thesis by (simp add: dict_get_def)
    qed
  qed
qed

lemma init_subscriptions_result:
  assumes "list_all (\<lambda>sub. \<not> raises env sub) cfg"
  shows "\<exists>n'. init_subscriptions env cfg n = Inr n'
     \<and> self_fields n' = self_fields n @ concat (map field_specs_of (filter (importable env) cfg))
     \<and> logger n' = logger n @ map (\<lambda>sub. (ERROR, CouldNotImport (sub_message_type sub)))
                                  (filter (\<lambda>sub. \<not> importable env sub) cfg)
     \<and> dom (recorded_subscriptions n') =
         dom (recorded_subscriptions n) \<union> sub_topic_name ` set (filter (importable env) cfg)
     \<and> dom (latest_messages n') =
         dom (latest_messages n) \<union> sub_topic_name ` set (filter (importable env) cfg)"
  using assms
proof (induction cfg arbitrary: n)
  case Nil
  then show ?case by simp
next
  case (Cons sub subs)
  then have rest: "list_all (\<lambda>sub. \<not> raises env sub) subs" and here: "\<not> raises env sub"
    by simp_all
  show ?case
  proof (cases "get_message env (sub_message_type sub)")
    case (Inl e)
    with here show ?thesis by (simp add: raises_def)
  next
    case (Inr mc)
    show ?thesis
    proof (cases mc)
      case None
      let ?n1 = "log_error n (CouldNotImport (sub_message_type sub))"
      from None Inr have ni: "\<not> importable env sub" by (simp add: importable_def)
      from None Inr have "init_subscriptions env (sub # subs) n = init_subscriptions env subs ?n1"
        by simp
      with Cons.IH [OF rest, of ?n1] ni show ?thesis
        by (auto simp: log_error_def)
    next
      case (Some c)
      let ?n1 = "n\<lparr>recorded_subscriptions :=
                 (recorded_subscriptions n) (sub_topic_name sub \<mapsto> (c, sub_fields sub)),
               latest_messages := (latest_messages n)(sub_topic_name sub \<mapsto> PNone),
               self_fields := self_fields n @ field_specs_of sub\<rparr>"
      from Some Inr have im: "importable env sub" by (simp add: importable_def)
      from Some Inr have "init_subscriptions env (sub # subs) n = init_subscriptions env subs ?n1"
        by (simp add: field_specs_of_def)
      with Cons.IH [OF rest, of ?n1] im show ?thesis
        by auto
    qed
  qed
qed

lemma init_node_fresh:
  assumes "DataRecorderNode_init env cfg i out = Inr n0"
  shows "data n0 = [] \<and> timer n0 = Some i \<and> output_csv n0 = out
           \<and> dict_get (latest_messages n0) k = PNone"
proof -
  from assms obtain n where s: "init_subscriptions env cfg (new_node out) = Inr n"
    and t: "n0 = n\<lparr>timer := Some i\<rparr>"
    by (auto simp: DataRecorderNode_init_def split: sum.splits option.splits)
  from init_subscriptions_keeps [OF s, of k] t show ?thesis
    by (simp add: new_node_def dict_get_def)
qed

lemma writerows_result:
  "list_all (\<lambda>r. set (map fst r) \<subseteq> set names) rs \<Longrightarrow>
     writerows names rs =
       Inr (map (\<lambda>r. map (\<lambda>k. case map_of r k of None \<Rightarrow> PStr [] | Some v \<Rightarrow> v) names) rs)"
proof (induction rs)
  case Nil
  then show ?case by simp
next
  case (Cons r rs)
  then have "filter (\<lambda>k. k \<notin> set names) (map fst r) = []"
    by (auto simp: filter_empty_conv)
  with Cons show ?case by (simp add: writerow_def)
qed

lemma run_keeps_cache:
  "run n evs = Inr n' \<Longrightarrow> list_all (\<lambda>e. case e of Msg t m \<Rightarrow> t \<noteq> k | Tick \<Rightarrow> True) evs \<Longrightarrow>
     latest_messages n' k = latest_messages n k"
proof (induction evs arbitrary: n)
  case Nil
  then show ?case by simp
next
  case (Cons ev evs)
  show ?case
  proof (cases ev)
    case (Msg t m)
    with Cons.prems have "run (message_callback n m t) evs = Inr n'" and "t \<noteq> k"
      and "list_all (\<lambda>e. case e of Msg t m \<Rightarrow> t \<noteq> k | Tick \<Rightarrow> True) evs"
      by simp_all
    with Cons.IH [of "message_callback n m t"] show ?thesis
      by (simp add: message_callback_def)
  next
    case Tick
    obtain lg where d: "record_data n = Inr (n\<lparr>logger := logger n @ lg,
        data := data n @ [build_row (latest_messages n) (self_fields n) []]\<rparr>)"
      using record_data_result by blast
    with Tick Cons.prems Cons.IH [of "n\<lparr>logger := logger n @ lg,
        data := data n @ [build_row (latest_messages n) (self_fields n) []]\<rparr>"]
    show ?thesis by simp
  qed
qed

lemma run_keeps_schema:
  assumes "run n evs = Inr n'"
  shows "self_fields n' = self_fields n \<and> output_csv n' = output_csv n \<and> timer n' = timer n
    \<and> (\<exists>rs. data n' = data n @ rs \<and> length rs = length (filter (\<lambda>e. e = Tick) evs)
          \<and> list_all (\<lambda>r. fst ` set r = name ` set (self_fields n) \<and> distinct (map fst r)) rs)"
proof -
  obtain lg rs lm where "run n evs = Inr (n\<lparr>latest_messages := lm, logger := logger n @ lg, data := data n @ rs\<rparr>)"
     and "length rs = length (filter (\<lambda>e. e = Tick) evs)"
     and "\<forall>r\<in>set rs. fst ` set r = name ` set (self_fields n) \<and> distinct (map fst r)"
    using run_result by blast
  with assms show ?thesis by (auto simp: list_all_iff)
qed

lemma example_init:
  "DataRecorderNode_init example_env example_config i ''output.csv'' =
     (if i < 0 then Inl ValueError else Inr (example_node i))"
  by (simp add: DataRecorderNode_init_def example_env_def example_config_def example_node_def
      new_node_def log_error_def)

lemma example_tick_msg:
  "run (example_node i) [Msg ''/odom'' example_msg, Tick] =
     Inr ((example_node i)\<lparr>latest_messages := [''/odom'' \<mapsto> example_msg],
        data := [[(''x'', PInt 7), (''pose'', PObj [(''x'', PInt 5), (''y'', PInt 7)])]]\<rparr>)"
  by (simp add: record_data_def example_node_def dict_get_def message_callback_def
        example_msg_def get_field_value_def)

lemma update_values: "snd ` set (AList.update k v al) \<subseteq> insert v (snd ` set al)"
  by (induction al) auto

lemma build_row_all_empty:
  "list_all (\<lambda>f. field_cell lm f = PStr []) fs \<Longrightarrow> snd ` set r \<subseteq> {PStr []} \<Longrightarrow>
     snd ` set (build_row lm fs r) \<subseteq> {PStr []}"
proof (induction fs arbitrary: r)
  case Nil
  then show ?case by (simp add: build_row_def)
next
  case (Cons f fs)
  let ?r' = "AList.update (name f) (field_cell lm f) r"
  from Cons.prems have c: "field_cell lm f = PStr []"
    and rest: "list_all (\<lambda>f. field_cell lm f = PStr []) fs" by simp_all
  have "snd ` set ?r' \<subseteq> {PStr []}"
    using update_values [of "name f" "field_cell lm f" r] Cons.prems(2) c by auto
  from Cons.IH [OF rest this] show ?case by (simp add: build_row_def)
qed

lemma last_named:
  assumes "name f \<notin> name ` set post"
  shows "filter (\<lambda>g. name g = name f) (pre @ f # post) = filter (\<lambda>g. name g = name f) pre @ [f]"
proof -
  from assms have "\<forall>g\<in>set post. name g \<noteq> name f" by (metis imageI)
  then have "filter (\<lambda>g. name g = name f) post = []" by (simp add: filter_empty_conv)
  then show ?thesis by simp
qed

lemma init_result:
  assumes "\<forall>sub\<in>set cfg. \<forall>e. get_message env (sub_message_type sub) \<noteq> Inl e"
  shows "\<exists>n. init_subscriptions env cfg (new_node out) = Inr n
     \<and> DataRecorderNode_init env cfg i out =
         (case create_timer env i of Some e \<Rightarrow> Inl e | None \<Rightarrow> Inr (n\<lparr>timer := Some i\<rparr>))
     \<and> data n = []
     \<and> self_fields n = concat (map field_specs_of (filter (importable env) cfg))
     \<and> logger n = map (\<lambda>sub. (ERROR, CouldNotImport (sub_message_type sub)))
                      (filter (\<lambda>sub. \<not> importable env sub) cfg)
     \<and> dom (recorded_subscriptions n) = sub_topic_name ` set (filter (importable env) cfg)
     \<and> dom (latest_messages n) = sub_topic_name ` set (filter (importable env) cfg)"
proof -
  from assms have "list_all (\<lambda>sub. \<not> raises env sub) cfg"
    by (auto simp: list_all_iff raises_def split: sum.splits)
  from init_subscriptions_result [OF this, of "new_node out"]
  obtain n where r: "init_subscriptions env cfg (new_node out) = Inr n
     \<and> self_fields n = self_fields (new_node out) @ concat (map field_specs_of (filter (importable env) cfg))
     \<and> logger n = logger (new_node out) @ map (\<lambda>sub. (ERROR, CouldNotImport (sub_message_type sub)))
                                  (filter (\<lambda>sub. \<not> importable env sub) cfg)
     \<and> dom (recorded_subscriptions n) =
         dom (recorded_subscriptions (new_node out)) \<union> sub_topic_name ` set (filter (importable env) cfg)
     \<and> dom (latest_messages n) =
         dom (latest_messages (new_node out)) \<union> sub_topic_name ` set (filter (importable env) cfg)" ..
  then have s: "init_subscriptions env cfg (new_node out) = Inr n" by (rule conjunct1)
  from init_subscriptions_keeps [OF s] have d: "data n = []" by (simp add: new_node_def)
  have e: "self_fields (new_node out) = []" "logger (new_node out) = []"
    "dom (recorded_subscriptions (new_node out)) = {}" "dom (latest_messages (new_node out)) = {}"
    by (simp_all add: new_node_def)
  have t: "DataRecorderNode_init env cfg i out =
         (case create_timer env i of Some e \<Rightarrow> Inl e | None \<Rightarrow> Inr (n\<lparr>timer := Some i\<rparr>))"
    using s by (simp add: DataRecorderNode_init_def)
  from r have "init_subscriptions env cfg (new_node out) = Inr n
     \<and> self_fields n = concat (map field_specs_of (filter (importable env) cfg))
     \<and> logger n = map (\<lambda>sub. (ERROR, CouldNotImport (sub_message_type sub)))
                                  (filter (\<lambda>sub. \<not> importable env sub) cfg)
     \<and> dom (recorded_subscriptions n) = sub_topic_name ` set (filter (importable env) cfg)
     \<and> dom (latest_messages n) = sub_topic_name ` set (filter (importable env) cfg)"
    unfolding e by simp
  with d t have "init_subscriptions env cfg (new_node out) = Inr n
     \<and> DataRecorderNode_init env cfg i out =
         (case create_timer env i of Some e \<Rightarrow> Inl e | None \<Rightarrow> Inr (n\<lparr>timer := Some i\<rparr>))
     \<and> data n = []
     \<and> self_fields n = concat (map field_specs_of (filter (importable env) cfg))
     \<and> logger n = map (\<lambda>sub. (ERROR, CouldNotImport (sub_message_type sub)))
                      (filter (\<lambda>sub. \<not> importable env sub) cfg)
     \<and> dom (recorded_subscriptions n) = sub_topic_name ` set (filter (importable env) cfg)
     \<and> dom (latest_messages n) = sub_topic_name ` set (filter (importable env) cfg)"
    by simp
  then show ?thesis ..
qed

lemma no_msg_for:
  "(\<forall>v. Msg k v \<notin> set evs) \<Longrightarrow>
     list_all (\<lambda>e. case e of Msg t m \<Rightarrow> t \<noteq> k | Tick \<Rightarrow> True) evs"
  by (auto simp: list_all_iff split: event.splits)

lemma run_total: "\<exists>n'. run n evs = Inr n'"
  using run_result [of n evs] by blast

lemma example_run_ticked:
  "run (example_node 0.05) [Tick, Msg ''/odom'' example_msg, Tick] = Inr example_node_ticked"
  by (simp add: record_data_def example_node_def dict_get_def message_callback_def
        example_msg_def get_field_value_def log_error_def Let_def example_node_ticked_def)

lemma reachable_rows:
  assumes "DataRecorderNode_init env cfg i out = Inr n0" and "run n0 evs = Inr n"
  shows "self_fields n = self_fields n0" and "output_csv n = out"
    and "length (data n) = length (filter (\<lambda>e. e = Tick) evs)"
    and "list_all (\<lambda>r. fst ` set r = name ` set (self_fields n) \<and> distinct (map fst r)) (data n)"
proof -
  from init_node_fresh [OF assms(1)] have f: "data n0 = []" "output_csv n0 = out" by simp_all
  from run_keeps_schema [OF assms(2)] f
  show "self_fields n = self_fields n0" and "output_csv n = out"
    and "length (data n) = length (filter (\<lambda>e. e = Tick) evs)"
    and "list_all (\<lambda>r. fst ` set r = name ` set (self_fields n) \<and> distinct (map fst r)) (data n)"
    by auto
qed

lemma write_csv_reachable:
  assumes "DataRecorderNode_init env cfg i out = Inr n0" and "run n0 evs = Inr n"
    and "data n \<noteq> []"
  shows "write_csv n = Inr (log_info n (DataWritten out),
            Some \<lparr>path = out, header = map name (self_fields n),
                  body = map (row_cells (map name (self_fields n))) (data n)\<rparr>)"
proof -
  note o = reachable_rows(2) [OF assms(1,2)] and k = reachable_rows(4) [OF assms(1,2)]
  from k have "list_all (\<lambda>r. set (map fst r) \<subseteq> set (map name (self_fields n))) (data n)"
    by (simp add: list_all_iff)
  from writerows_result [OF this] assms(3) o show ?thesis
    by (simp add: write_csv_def row_cells_def [abs_def])
qed

lemma cells_from_row:
  assumes "list_all (\<lambda>r. fst ` set r = set names) rs"
  shows "list_all2 (\<lambda>r cells. list_all2 (\<lambda>c v. map_of r c = Some v) names cells)
           rs (map (row_cells names) rs)"
proof -
  have "list_all2 (\<lambda>c v. map_of r c = Some v) names (row_cells names r)"
    if "r \<in> set rs" for r
  proof -
    from assms that have k: "fst ` set r = set names" by (simp add: list_all_iff)
    have "map_of r c = Some (case map_of r c of None \<Rightarrow> PStr [] | Some v \<Rightarrow> v)"
      if "c \<in> set names" for c
    proof (cases "map_of r c")
      case None
      then have "c \<notin> fst ` set r" by (simp add: map_of_eq_None_iff)
      with k that show ?thesis by simp
    next
      case (Some v)
      then show ?thesis by simp
    qed
    then show ?thesis by (simp add: row_cells_def list_all2_map2 list_all2_same)
  qed
  then show ?thesis by (simp add: list_all2_map2 list_all2_same)
qed

lemma names_of_specs: "map name (field_specs_of sub) = map cfg_name (sub_fields sub)"
  by (simp add: field_specs_of_def comp_def)



section \<open>The claims\<close>

text \<open>
  C1, as amended.  Every row appended by a sampling tick has exactly the configured
  output names as its keys.  For any node state, whatever the cache of latest messages
  holds, \<open>record_data\<close> returns and appends one row; the set of the row's keys is the
  set of the names in \<open>self.fields\<close>, so each configured field has its entry and
  there is no other entry; no key occurs twice, so the row has one entry for each
  different configured name, and one entry per configured field exactly when the
  configured names are pairwise different.
\<close>

theorem record_data_row_keys:
  "\<exists>n' r. record_data n = Inr n' \<and> data n' = data n @ [r]
      \<and> fst ` set r = name ` set (self_fields n)
      \<and> distinct (map fst r)
      \<and> length r = length (remdups (map name (self_fields n)))
      \<and> (distinct (map name (self_fields n)) \<longrightarrow> length r = length (self_fields n))"
proof -
  let ?r = "build_row (latest_messages n) (self_fields n) []"
  obtain lg where d: "record_data n = Inr (n\<lparr>logger := logger n @ lg, data := data n @ [?r]\<rparr>)"
    using record_data_result by blast
  have k: "fst ` set ?r = name ` set (self_fields n)" by (simp add: build_row_keys)
  have di: "distinct (map fst ?r)" by (simp add: build_row_distinct)
  have "length ?r = card (set (map fst ?r))"
    using di distinct_card [of "map fst ?r"] by simp
  also have "\<dots> = card (set (map name (self_fields n)))" using k by simp
  also have "\<dots> = length (remdups (map name (self_fields n)))"
    by (simp add: length_remdups_card_conv)
  finally have l: "length ?r = length (remdups (map name (self_fields n)))" .
  then have "length ?r = length (self_fields n)" if "distinct (map name (self_fields n))"
    using that by (simp add: distinct_remdups_id)
  with d k di l show ?thesis by simp
qed

theorem record_data_row_keys_witness:
  "distinct (map name (self_fields (example_node_msg\<lparr>self_fields :=
        [\<lparr>name = ''x'', topic_name = ''/odom'', field_path = ''pose.x''\<rparr>,
         \<lparr>name = ''pose'', topic_name = ''/odom'', field_path = ''pose''\<rparr>]\<rparr>)))
   \<and> (\<exists>n' r. record_data (example_node_msg\<lparr>self_fields :=
        [\<lparr>name = ''x'', topic_name = ''/odom'', field_path = ''pose.x''\<rparr>,
         \<lparr>name = ''pose'', topic_name = ''/odom'', field_path = ''pose''\<rparr>]\<rparr>) = Inr n'
        \<and> data n' = [r] \<and> fst ` set r = {''x'', ''pose''} \<and> distinct (map fst r)
        \<and> length r = 2)"
proof -
  let ?N = "example_node_msg\<lparr>self_fields :=
        [\<lparr>name = ''x'', topic_name = ''/odom'', field_path = ''pose.x''\<rparr>,
         \<lparr>name = ''pose'', topic_name = ''/odom'', field_path = ''pose''\<rparr>]\<rparr>"
  have d: "distinct (map name (self_fields ?N))" by simp
  have e: "data ?N = []" by (simp add: example_node_msg_def example_node_def)
  have f: "name ` set (self_fields ?N) = {''x'', ''pose''}" by simp
  have l: "length (self_fields ?N) = 2" by simp
  from record_data_row_keys [of ?N]
  obtain n' where "\<exists>r. record_data ?N = Inr n' \<and> data n' = data ?N @ [r]
      \<and> fst ` set r = name ` set (self_fields ?N)
      \<and> distinct (map fst r)
      \<and> length r = length (remdups (map name (self_fields ?N)))
      \<and> (distinct (map name (self_fields ?N)) \<longrightarrow> length r = length (self_fields ?N))" ..
  then obtain r where c: "record_data ?N = Inr n' \<and> data n' = data ?N @ [r]
      \<and> fst ` set r = name ` set (self_fields ?N)
      \<and> distinct (map fst r)
      \<and> length r = length (remdups (map name (self_fields ?N)))
      \<and> (distinct (map name (self_fields ?N)) \<longrightarrow> length r = length (self_fields ?N))" ..
  note c1 = c [THEN conjunct1]
    and c2 = c [THEN conjunct2, THEN conjunct1]
    and c3 = c [THEN conjunct2, THEN conjunct2, THEN conjunct1]
    and c4 = c [THEN conjunct2, THEN conjunct2, THEN conjunct2, THEN conjunct1]
    and c6 = c [THEN conjunct2, THEN conjunct2, THEN conjunct2, THEN conjunct2, THEN conjunct2]
  have c5: "length r = 2" using c6 [THEN mp, OF d] unfolding l .
  from c2 have c2': "data n' = [r]" unfolding e by simp
  from c3 have c3': "fst ` set r = {''x'', ''pose''}" unfolding f .
  have w: "record_data ?N = Inr n'
        \<and> data n' = [r] \<and> fst ` set r = {''x'', ''pose''} \<and> distinct (map fst r)
        \<and> length r = 2"
    using c1 c2' c3' c4 c5 by (intro conjI)
  show ?thesis by (rule conjI [OF d], (rule exI)+, rule w)
qed

text \<open>
  Fields that share an output name share one entry: the node constructed from a
  configuration with the names \<open>x\<close>, \<open>pose\<close>, \<open>x\<close> has three fields, and the row
  of its tick has two entries.
\<close>

theorem shared_name_row_is_shorter:
  "DataRecorderNode_init example_env example_config 0.05 ''output.csv'' = Inr (example_node 0.05)
   \<and> map name (self_fields (example_node 0.05)) = [''x'', ''pose'', ''x'']
   \<and> record_data (example_node 0.05) =
        Inr ((example_node 0.05)\<lparr>data := [[(''x'', PStr []), (''pose'', PStr [])]]\<rparr>)
   \<and> length [(''x'', PStr []), (''pose'', PStr [])] \<noteq> length (self_fields (example_node 0.05))"
proof -
  have a: "DataRecorderNode_init example_env example_config 0.05 ''output.csv'' = Inr (example_node 0.05)"
    by (simp add: example_init)
  have b: "map name (self_fields (example_node 0.05)) = [''x'', ''pose'', ''x'']"
    by (simp add: example_node_def)
  have c: "record_data (example_node 0.05) =
        Inr ((example_node 0.05)\<lparr>data := [[(''x'', PStr []), (''pose'', PStr [])]]\<rparr>)"
    by (simp add: record_data_def example_node_def dict_get_def)
  have d: "length [(''x'', PStr []), (''pose'', PStr [])] \<noteq> length (self_fields (example_node 0.05))"
    by (simp add: example_node_def)
  from a b c d show ?thesis by (intro conjI)
qed

text \<open>
  C2. Each completed tick appends exactly one row, unconditionally.  Any run of message
  arrivals and ticks returns, and it lengthens the row store by the number of its ticks;
  started from a freshly constructed node the store holds exactly that many rows.  When
  no field's topic has a message yet, the tick still appends its row, with every
  configured name present and every value the empty string.
\<close>

theorem ticks_append_one_row_each:
  "(\<exists>n'. run n evs = Inr n'
        \<and> length (data n') = length (data n) + length (filter (\<lambda>e. e = Tick) evs))
   \<and> (DataRecorderNode_init env cfg i out = Inr n \<longrightarrow>
        (\<exists>n'. run n evs = Inr n' \<and> length (data n') = length (filter (\<lambda>e. e = Tick) evs)))
   \<and> ((\<forall>f\<in>set (self_fields n). dict_get (latest_messages n) (topic_name f) = PNone) \<longrightarrow>
        (\<exists>n' r. record_data n = Inr n' \<and> data n' = data n @ [r]
            \<and> fst ` set r = name ` set (self_fields n) \<and> snd ` set r \<subseteq> {PStr []}))"
proof -
  obtain lg rs lm where r: "run n evs = Inr (n\<lparr>latest_messages := lm, logger := logger n @ lg, data := data n @ rs\<rparr>)"
     and l: "length rs = length (filter (\<lambda>e. e = Tick) evs)"
    using run_result by blast
  from r l have a: "\<exists>n'. run n evs = Inr n'
        \<and> length (data n') = length (data n) + length (filter (\<lambda>e. e = Tick) evs)"
    by simp
  have b: "\<exists>n'. run n evs = Inr n' \<and> length (data n') = length (filter (\<lambda>e. e = Tick) evs)"
    if "DataRecorderNode_init env cfg i out = Inr n"
  proof -
    from init_node_fresh [OF that] have "data n = []" by simp
    with a show ?thesis by simp
  qed
  have c: "\<exists>n' r. record_data n = Inr n' \<and> data n' = data n @ [r]
            \<and> fst ` set r = name ` set (self_fields n) \<and> snd ` set r \<subseteq> {PStr []}"
    if h: "\<forall>f\<in>set (self_fields n). dict_get (latest_messages n) (topic_name f) = PNone"
  proof -
    let ?r = "build_row (latest_messages n) (self_fields n) []"
    obtain lg' where d: "record_data n = Inr (n\<lparr>logger := logger n @ lg', data := data n @ [?r]\<rparr>)"
      using record_data_result by blast
    from h have "list_all (\<lambda>f. field_cell (latest_messages n) f = PStr []) (self_fields n)"
      by (simp add: list_all_iff field_cell_def)
    then have "snd ` set ?r \<subseteq> {PStr []}" by (rule build_row_all_empty) simp
    moreover have "fst ` set ?r = name ` set (self_fields n)" by (simp add: build_row_keys)
    ultimately show ?thesis using d by simp
  qed
  from a b c show ?thesis by blast
qed

theorem ticks_append_one_row_each_witness:
  "DataRecorderNode_init example_env example_config 0.05 ''output.csv'' = Inr (example_node 0.05)
   \<and> (\<exists>n'. run (example_node 0.05) [Tick, Msg ''/odom'' example_msg, Tick, Tick] = Inr n'
          \<and> length (data n') = 3)
   \<and> (\<exists>n' r. record_data (example_node 0.05) = Inr n' \<and> data n' = [r]
          \<and> fst ` set r = {''x'', ''pose''} \<and> snd ` set r \<subseteq> {PStr []})"
proof -
  let ?N = "example_node 0.05"
  let ?E = "[Tick, Msg ''/odom'' example_msg, Tick, Tick]"
  note t = ticks_append_one_row_each [of ?N ?E example_env example_config "0.05" "''output.csv''"]
  have i: "DataRecorderNode_init example_env example_config 0.05 ''output.csv'' = Inr ?N"
    by (simp add: example_init)
  have e: "\<forall>f\<in>set (self_fields ?N). dict_get (latest_messages ?N) (topic_name f) = PNone"
    by (simp add: example_node_def dict_get_def)
  have d: "data ?N = []"
    and f: "name ` set (self_fields ?N) = {''x'', ''pose''}"
    by (auto simp add: example_node_def)
  have c: "length (filter (\<lambda>e. e = Tick) ?E) = 3" by simp
  have "\<exists>n'. run ?N ?E = Inr n' \<and> length (data n') = 3"
    using t [THEN conjunct2, THEN conjunct1, THEN mp, OF i] unfolding c .
  moreover have "\<exists>n' r. record_data ?N = Inr n' \<and> data n' = [r]
          \<and> fst ` set r = {''x'', ''pose''} \<and> snd ` set r \<subseteq> {PStr []}"
    using t [THEN conjunct2, THEN conjunct2, THEN mp, OF e] unfolding d f by simp
  ultimately show ?thesis using i by blast
qed

text \<open>
  C3, as amended.  \<open>get_field_value\<close> never raises: for every message and every
  path it returns the value the attribute chain resolves to, leaving the node as it was,
  or, when the chain raises, it logs an error and returns \<open>None\<close>.  A returned zero,
  false or empty string is therefore always the resolved value, never the sign of a miss.
  (A field that holds \<open>None\<close> is returned as \<open>None\<close> too, which the caller cannot
  tell from a miss.)
\<close>

theorem get_field_value_never_raises:
  "(\<exists>v n'. get_field_value n msg p = Inr (v, n')
       \<and> (case getattr_chain msg (split_dot p) of
             Inr w \<Rightarrow> v = w \<and> n' = n
           | Inl e \<Rightarrow> v = PNone \<and> n' = log_error n (CouldNotGetField p msg)))
   \<and> (\<forall>v n'. get_field_value n msg p = Inr (v, n') \<and> v \<in> {PInt 0, PFloat 0, PBool False, PStr []}
         \<longrightarrow> getattr_chain msg (split_dot p) = Inr v)"
proof (cases "getattr_chain msg (split_dot p)")
  case (Inl e)
  then have "e = AttributeError" by (rule getattr_chain_error)
  with Inl show ?thesis by (auto simp: get_field_value_def)
next
  case (Inr w)
  then show ?thesis by (simp add: get_field_value_def)
qed

theorem get_field_value_never_raises_witness:
  "get_field_value (example_node 0) (PObj [(''pose'', PObj [(''x'', PInt 0)])]) ''pose.x''
      = Inr (PInt 0, example_node 0)
   \<and> PInt 0 \<in> {PInt 0, PFloat 0, PBool False, PStr []}
   \<and> getattr_chain (PObj [(''pose'', PObj [(''x'', PInt 0)])]) (split_dot ''pose.x'') = Inr (PInt 0)"
proof -
  have g: "get_field_value (example_node 0) (PObj [(''pose'', PObj [(''x'', PInt 0)])]) ''pose.x''
      = Inr (PInt 0, example_node 0)"
    by (simp add: get_field_value_def)
  from get_field_value_never_raises
    [of "example_node 0" "PObj [(''pose'', PObj [(''x'', PInt 0)])]" "''pose.x''"] g
  have "getattr_chain (PObj [(''pose'', PObj [(''x'', PInt 0)])]) (split_dot ''pose.x'') = Inr (PInt 0)"
    by blast
  with g show ?thesis by simp
qed

text \<open>
  The sentinel is not distinct from a field holding \<open>None\<close>: on an object whose
  attribute \<open>x\<close> is \<open>None\<close> the chain resolves, on an object without \<open>x\<close> it
  raises, and \<open>get_field_value\<close> returns \<open>None\<close> for both.
\<close>

theorem none_field_same_as_miss:
  "getattr_chain (PObj [(''x'', PNone)]) (split_dot ''x'') = Inr PNone
   \<and> getattr_chain (PObj []) (split_dot ''x'') = Inl AttributeError
   \<and> get_field_value (new_node []) (PObj [(''x'', PNone)]) ''x'' = Inr (PNone, new_node [])
   \<and> get_field_value (new_node []) (PObj []) ''x''
        = Inr (PNone, log_error (new_node []) (CouldNotGetField ''x'' (PObj [])))"
  by (simp add: get_field_value_def)

text \<open>
  C4, as amended.  When the path of a field resolves to a nested object, extraction
  returns that object, not a miss, and the row of the tick records the object itself
  under the field's output name (for the last field configured with that name).
\<close>

theorem nested_object_is_recorded:
  assumes "self_fields n = pre @ f # post"
    and "name f \<notin> name ` set post"
    and "dict_get (latest_messages n) (topic_name f) = msg"
    and "msg \<noteq> PNone"
    and "getattr_chain msg (split_dot (field_path f)) = Inr (PObj attrs)"
  shows "get_field_value n msg (field_path f) = Inr (PObj attrs, n)
    \<and> (\<exists>n' r. record_data n = Inr n' \<and> data n' = data n @ [r]
          \<and> map_of r (name f) = Some (PObj attrs))"
proof -
  let ?lm = "latest_messages n"
  let ?r = "build_row ?lm (self_fields n) []"
  obtain lg where d: "record_data n = Inr (n\<lparr>logger := logger n @ lg, data := data n @ [?r]\<rparr>)"
    using record_data_result by blast
  from assms(3-5) have c: "field_cell ?lm f = PObj attrs"
    by (simp add: field_cell_def extracted_def)
  have "filter (\<lambda>g. name g = name f) (self_fields n)
      = filter (\<lambda>g. name g = name f) pre @ [f]"
    unfolding assms(1) by (rule last_named [OF assms(2)])
  then have "map_of ?r (name f) = Some (field_cell ?lm f)"
    by (simp add: build_row_lookup)
  with c d have "\<exists>n' r. record_data n = Inr n' \<and> data n' = data n @ [r]
          \<and> map_of r (name f) = Some (PObj attrs)"
    by simp
  moreover from assms(5) have "get_field_value n msg (field_path f) = Inr (PObj attrs, n)"
    by (simp add: get_field_value_def)
  ultimately show ?thesis by simp
qed

theorem nested_object_is_recorded_witness:
  "self_fields example_node_msg =
       [\<lparr>name = ''x'', topic_name = ''/odom'', field_path = ''pose.x''\<rparr>]
       @ \<lparr>name = ''pose'', topic_name = ''/odom'', field_path = ''pose''\<rparr>
       # [\<lparr>name = ''x'', topic_name = ''/odom'', field_path = ''pose.y''\<rparr>]
   \<and> dict_get (latest_messages example_node_msg) ''/odom'' = example_msg
   \<and> example_msg \<noteq> PNone
   \<and> getattr_chain example_msg (split_dot ''pose'') = Inr (PObj [(''x'', PInt 5), (''y'', PInt 7)])
   \<and> get_field_value example_node_msg example_msg ''pose''
        = Inr (PObj [(''x'', PInt 5), (''y'', PInt 7)], example_node_msg)
   \<and> (\<exists>n' r. record_data example_node_msg = Inr n' \<and> data n' = data example_node_msg @ [r]
          \<and> map_of r ''pose'' = Some (PObj [(''x'', PInt 5), (''y'', PInt 7)]))"
proof -
  let ?f = "\<lparr>name = ''pose'', topic_name = ''/odom'', field_path = ''pose''\<rparr>"
  let ?pre = "[\<lparr>name = ''x'', topic_name = ''/odom'', field_path = ''pose.x''\<rparr>]"
  let ?post = "[\<lparr>name = ''x'', topic_name = ''/odom'', field_path = ''pose.y''\<rparr>]"
  have a: "self_fields example_node_msg = ?pre @ ?f # ?post"
    by (simp add: example_node_msg_def example_node_def)
  have b: "name ?f \<notin> name ` set ?post" by simp
  have c: "dict_get (latest_messages example_node_msg) (topic_name ?f) = example_msg"
    by (simp add: example_node_msg_def dict_get_def)
  have d: "example_msg \<noteq> PNone" by (simp add: example_msg_def)
  have e: "getattr_chain example_msg (split_dot (field_path ?f))
      = Inr (PObj [(''x'', PInt 5), (''y'', PInt 7)])"
    by (simp add: example_msg_def)
  from nested_object_is_recorded [OF a b c d e] a c d e show ?thesis by simp
qed

text \<open>
  The path \<open>pose\<close> resolves to a nested object of the message, and the row holds that
  object in column \<open>pose\<close>, not the empty placeholder.
\<close>

theorem nested_object_is_recorded_counterexample:
  "run (example_node 0.05) [Msg ''/odom'' example_msg, Tick] =
     Inr ((example_node 0.05)\<lparr>latest_messages := [''/odom'' \<mapsto> example_msg],
        data := [[(''x'', PInt 7), (''pose'', PObj [(''x'', PInt 5), (''y'', PInt 7)])]]\<rparr>)
   \<and> PObj [(''x'', PInt 5), (''y'', PInt 7)] \<noteq> PStr []"
  by (rule conjI, rule example_tick_msg, simp)

text \<open>
  C5, as amended.  \<open>__init__\<close> does not look at the interval: it hands it to
  \<open>create_timer\<close> unchanged, after the subscriptions have been set up.  Provided
  \<open>get_message\<close> raises for no configured type, construction succeeds with a timer
  of exactly that period whenever \<open>create_timer\<close> accepts it, whatever its sign, and
  fails with \<open>create_timer\<close>'s own exception otherwise.
\<close>

theorem interval_is_not_validated:
  assumes "\<forall>sub\<in>set cfg. \<forall>e. get_message env (sub_message_type sub) \<noteq> Inl e"
  shows "(create_timer env i = None \<longrightarrow>
            (\<exists>n. DataRecorderNode_init env cfg i out = Inr n \<and> timer n = Some i))
       \<and> (\<forall>e. create_timer env i = Some e \<longrightarrow> DataRecorderNode_init env cfg i out = Inl e)"
proof -
  from init_result [OF assms, of out i]
  obtain n where "init_subscriptions env cfg (new_node out) = Inr n
     \<and> DataRecorderNode_init env cfg i out =
         (case create_timer env i of Some e \<Rightarrow> Inl e | None \<Rightarrow> Inr (n\<lparr>timer := Some i\<rparr>))
     \<and> data n = []
     \<and> self_fields n = concat (map field_specs_of (filter (importable env) cfg))
     \<and> logger n = map (\<lambda>sub. (ERROR, CouldNotImport (sub_message_type sub)))
                      (filter (\<lambda>sub. \<not> importable env sub) cfg)
     \<and> dom (recorded_subscriptions n) = sub_topic_name ` set (filter (importable env) cfg)
     \<and> dom (latest_messages n) = sub_topic_name ` set (filter (importable env) cfg)" ..
  then have "DataRecorderNode_init env cfg i out =
         (case create_timer env i of Some e \<Rightarrow> Inl e | None \<Rightarrow> Inr (n\<lparr>timer := Some i\<rparr>))"
    by simp
  then show ?thesis by simp
qed

theorem interval_is_not_validated_witness:
  "(\<exists>n. DataRecorderNode_init example_env example_config (- 1) ''output.csv'' = Inl ValueError
       \<and> DataRecorderNode_init example_env example_config 0 ''output.csv'' = Inr n
       \<and> timer n = Some 0)"
proof -
  have g: "\<forall>sub\<in>set example_config. \<forall>e. get_message example_env (sub_message_type sub) \<noteq> Inl e"
    by (simp add: example_config_def example_env_def)
  have a: "create_timer example_env 0 = None" and b: "create_timer example_env (- 1) = Some ValueError"
    by (simp_all add: example_env_def)
  from interval_is_not_validated [OF g, of 0 "''output.csv''"] a
  have "\<exists>n. DataRecorderNode_init example_env example_config 0 ''output.csv'' = Inr n \<and> timer n = Some 0"
    by blast
  moreover from interval_is_not_validated [OF g, of "- 1" "''output.csv''"] b
  have "DataRecorderNode_init example_env example_config (- 1) ''output.csv'' = Inl ValueError"
    by blast
  ultimately show ?thesis by blast
qed

text \<open>
  With a timer service that refuses only negative periods, the interval 0 is not positive
  and the node is constructed, its timer running with period 0.
\<close>

theorem zero_interval_accepted_counterexample:
  "(0::real) \<le> 0 \<and> create_timer example_env 0 = None
   \<and> DataRecorderNode_init example_env example_config 0 ''output.csv'' = Inr (example_node 0)
   \<and> timer (example_node 0) = Some 0"
  by (simp add: example_init) (simp add: example_env_def example_node_def)




text \<open>
  C7. The tick reads the cache with \<open>dict_get (latest_messages n)\<close>.  After a message
  on topic \<open>k\<close>, whatever ticks and messages on other topics follow, that read yields
  the message; it does not depend on what came before.  In a node constructed by
  \<open>__init__\<close>, as long as no message on \<open>k\<close> has arrived, the read yields
  \<open>None\<close> and the tick returns normally.
\<close>

theorem latest_message_is_read:
  "(run n (evs @ Msg k v # evs') = Inr n1 \<and> (\<forall>w. Msg k w \<notin> set evs')
       \<longrightarrow> dict_get (latest_messages n1) k = v)
   \<and> (DataRecorderNode_init env cfg i out = Inr n0 \<and> run n0 evs0 = Inr n2
         \<and> (\<forall>w. Msg k w \<notin> set evs0)
       \<longrightarrow> dict_get (latest_messages n2) k = PNone \<and> (\<exists>n3. record_data n2 = Inr n3))"
proof -
  have a: "dict_get (latest_messages n1) k = v"
    if r: "run n (evs @ Msg k v # evs') = Inr n1" and q: "\<forall>w. Msg k w \<notin> set evs'"
  proof -
    obtain m where m: "run n evs = Inr m" using run_total by blast
    with r have "run (message_callback m v k) evs' = Inr n1"
      by (simp add: run_append)
    from run_keeps_cache [OF this no_msg_for [OF q]]
    show ?thesis by (simp add: message_callback_def dict_get_def)
  qed
  have b: "dict_get (latest_messages n2) k = PNone \<and> (\<exists>n3. record_data n2 = Inr n3)"
    if i: "DataRecorderNode_init env cfg i out = Inr n0" and r: "run n0 evs0 = Inr n2"
      and q: "\<forall>w. Msg k w \<notin> set evs0"
  proof -
    from init_node_fresh [OF i, of k] have "dict_get (latest_messages n0) k = PNone" by simp
    moreover from run_keeps_cache [OF r no_msg_for [OF q]]
    have "latest_messages n2 k = latest_messages n0 k" .
    ultimately have "dict_get (latest_messages n2) k = PNone" by (simp add: dict_get_def)
    moreover have "\<exists>n3. record_data n2 = Inr n3" using record_data_result [of n2] by blast
    ultimately show ?thesis by simp
  qed
  from a b show ?thesis by blast
qed

theorem latest_message_is_read_witness:
  "run (example_node 0.05)
      ([Msg ''/odom'' (PInt 1), Tick] @ Msg ''/odom'' example_msg # [Msg ''/gps'' (PInt 2), Tick])
     = Inr ((example_node 0.05)\<lparr>latest_messages := [''/odom'' \<mapsto> example_msg, ''/gps'' \<mapsto> PInt 2],
          data := [[(''x'', PStr []), (''pose'', PStr [])],
                   [(''x'', PInt 7), (''pose'', PObj [(''x'', PInt 5), (''y'', PInt 7)])]],
          logger := [(ERROR, CouldNotImport ''no_such/msg/Fix''),
                     (ERROR, CouldNotGetField ''pose.x'' (PInt 1)),
                     (ERROR, CouldNotGetField ''pose'' (PInt 1)),
                     (ERROR, CouldNotGetField ''pose.y'' (PInt 1))]\<rparr>)
   \<and> dict_get (latest_messages ((example_node 0.05)\<lparr>latest_messages := [''/odom'' \<mapsto> example_msg, ''/gps'' \<mapsto> PInt 2],
          data := [[(''x'', PStr []), (''pose'', PStr [])],
                   [(''x'', PInt 7), (''pose'', PObj [(''x'', PInt 5), (''y'', PInt 7)])]],
          logger := [(ERROR, CouldNotImport ''no_such/msg/Fix''),
                     (ERROR, CouldNotGetField ''pose.x'' (PInt 1)),
                     (ERROR, CouldNotGetField ''pose'' (PInt 1)),
                     (ERROR, CouldNotGetField ''pose.y'' (PInt 1))]\<rparr>)) ''/odom'' = example_msg
   \<and> DataRecorderNode_init example_env example_config 0.05 ''output.csv'' = Inr (example_node 0.05)
   \<and> run (example_node 0.05) [Msg ''/gps'' (PInt 2)]
        = Inr ((example_node 0.05)\<lparr>latest_messages := [''/odom'' \<mapsto> PNone, ''/gps'' \<mapsto> PInt 2]\<rparr>)
   \<and> dict_get (latest_messages ((example_node 0.05)\<lparr>latest_messages := [''/odom'' \<mapsto> PNone, ''/gps'' \<mapsto> PInt 2]\<rparr>)) ''/odom'' = PNone
   \<and> (\<exists>n3. record_data ((example_node 0.05)\<lparr>latest_messages := [''/odom'' \<mapsto> PNone, ''/gps'' \<mapsto> PInt 2]\<rparr>) = Inr n3)"
  (is "?r1 \<and> ?g1 \<and> ?i \<and> ?r2 \<and> ?g2 \<and> ?t")
proof -
  have r1: ?r1
    by (simp add: record_data_def example_node_def dict_get_def message_callback_def
        example_msg_def get_field_value_def log_error_def Let_def)
  have q1: "\<forall>w. Msg ''/odom'' w \<notin> set [Msg ''/gps'' (PInt 2), Tick]" by simp
  have i: ?i by (simp add: example_init)
  have r2: ?r2 by (simp add: message_callback_def example_node_def)
  have q2: "\<forall>w. Msg ''/odom'' w \<notin> set [Msg ''/gps'' (PInt 2)]" by simp
  note t = latest_message_is_read [where k = "''/odom''"]
  have g1: ?g1 using t [THEN conjunct1, THEN mp, OF conjI, OF r1 q1] .
  have "?g2 \<and> ?t" using t [THEN conjunct2, THEN mp, OF conjI, OF i conjI, OF r2 q2] .
  with r1 g1 i r2 show ?thesis by blast
qed

text \<open>
  C8. Export preserves append order.  For a node reached from construction by any run
  and holding at least one row, \<open>write_csv\<close> succeeds and the lines it writes are,
  in order, the cells of the accumulated rows: as many lines as rows, one per tick of the
  run, none reordered, left out or repeated.  Whatever happens afterwards only extends the
  row store at its end, and a tick extends it by exactly one row.
\<close>

theorem export_keeps_append_order:
  assumes "DataRecorderNode_init env cfg i out = Inr n0" and "run n0 evs = Inr n"
    and "data n \<noteq> []"
  shows "write_csv n = Inr (log_info n (DataWritten out),
            Some \<lparr>path = out, header = map name (self_fields n),
                  body = map (\<lambda>r. map (\<lambda>k. case map_of r k of None \<Rightarrow> PStr [] | Some v \<Rightarrow> v)
                                     (map name (self_fields n))) (data n)\<rparr>)
    \<and> length (data n) = length (filter (\<lambda>e. e = Tick) evs)
    \<and> (\<forall>evs' n'. run n evs' = Inr n' \<longrightarrow> prefix (data n) (data n'))
    \<and> (\<exists>n' r. record_data n = Inr n' \<and> data n' = data n @ [r])"
proof -
  have a: "write_csv n = Inr (log_info n (DataWritten out),
            Some \<lparr>path = out, header = map name (self_fields n),
                  body = map (\<lambda>r. map (\<lambda>k. case map_of r k of None \<Rightarrow> PStr [] | Some v \<Rightarrow> v)
                                     (map name (self_fields n))) (data n)\<rparr>)"
    using write_csv_reachable [OF assms] by (simp add: row_cells_def [abs_def])
  have b: "length (data n) = length (filter (\<lambda>e. e = Tick) evs)"
    by (rule reachable_rows(3) [OF assms(1,2)])
  have c: "prefix (data n) (data n')" if "run n evs' = Inr n'" for evs' n'
    using run_keeps_schema [OF that] by (auto simp: prefix_def)
  have d: "\<exists>n' r. record_data n = Inr n' \<and> data n' = data n @ [r]"
    using record_data_result [of n] by auto
  from a b c d show ?thesis by blast
qed

theorem export_keeps_append_order_witness:
  "DataRecorderNode_init example_env example_config 0.05 ''output.csv'' = Inr (example_node 0.05)
   \<and> run (example_node 0.05) [Tick, Msg ''/odom'' example_msg, Tick] = Inr example_node_ticked
   \<and> data example_node_ticked \<noteq> []
   \<and> write_csv example_node_ticked =
       Inr (log_info example_node_ticked (DataWritten ''output.csv''),
            Some \<lparr>path = ''output.csv'', header = [''x'', ''pose'', ''x''],
                  body = [[PStr [], PStr [], PStr []],
                          [PInt 7, PObj [(''x'', PInt 5), (''y'', PInt 7)], PInt 7]]\<rparr>)"
proof -
  have i: "DataRecorderNode_init example_env example_config 0.05 ''output.csv'' = Inr (example_node 0.05)"
    by (simp add: example_init)
  have d: "data example_node_ticked \<noteq> []" by (simp add: example_node_ticked_def)
  have s: "map name (self_fields example_node_ticked) = [''x'', ''pose'', ''x'']"
    and e: "data example_node_ticked = [[(''x'', PStr []), (''pose'', PStr [])],
                 [(''x'', PInt 7), (''pose'', PObj [(''x'', PInt 5), (''y'', PInt 7)])]]"
    by (simp_all add: example_node_ticked_def example_node_def)
  have "write_csv example_node_ticked =
       Inr (log_info example_node_ticked (DataWritten ''output.csv''),
            Some \<lparr>path = ''output.csv'', header = [''x'', ''pose'', ''x''],
                  body = [[PStr [], PStr [], PStr []],
                          [PInt 7, PObj [(''x'', PInt 5), (''y'', PInt 7)], PInt 7]]\<rparr>)"
    using export_keeps_append_order [OF i example_run_ticked d, THEN conjunct1]
    unfolding s e by simp
  with i example_run_ticked d show ?thesis by simp
qed

text \<open>
  C9. With no rows accumulated, \<open>write_csv\<close> writes no file at all (not even a
  header) and logs one message at level INFO; it does not fail.  This is the case in
  particular for a constructed node whose run had no tick.
\<close>

theorem empty_export_writes_nothing:
  "(data n = [] \<longrightarrow>
       write_csv n = Inr (n\<lparr>logger := logger n @ [(INFO, NoDataToWrite)]\<rparr>, None))
   \<and> (DataRecorderNode_init env cfg i out = Inr n0 \<and> run n0 evs = Inr n1 \<and> Tick \<notin> set evs \<longrightarrow>
       write_csv n1 = Inr (n1\<lparr>logger := logger n1 @ [(INFO, NoDataToWrite)]\<rparr>, None))"
proof -
  have a: "write_csv m = Inr (m\<lparr>logger := logger m @ [(INFO, NoDataToWrite)]\<rparr>, None)"
    if "data m = []" for m
    using that by (simp add: write_csv_def log_info_def)
  have "data n1 = []"
    if i: "DataRecorderNode_init env cfg i out = Inr n0" and r: "run n0 evs = Inr n1"
      and t: "Tick \<notin> set evs"
  proof -
    from t have "filter (\<lambda>e. e = Tick) evs = []" by (auto simp: filter_empty_conv)
    with reachable_rows(3) [OF i r] show ?thesis by simp
  qed
  with a show ?thesis by blast
qed

theorem empty_export_writes_nothing_witness:
  "data (example_node 0.05) = []
   \<and> write_csv (example_node 0.05) =
        Inr ((example_node 0.05)\<lparr>logger := [(ERROR, CouldNotImport ''no_such/msg/Fix''),
                                              (INFO, NoDataToWrite)]\<rparr>, None)
   \<and> DataRecorderNode_init example_env example_config 0.05 ''output.csv'' = Inr (example_node 0.05)
   \<and> run (example_node 0.05) [Msg ''/odom'' example_msg]
        = Inr ((example_node 0.05)\<lparr>latest_messages := [''/odom'' \<mapsto> example_msg]\<rparr>)
   \<and> Tick \<notin> set [Msg ''/odom'' example_msg]
   \<and> write_csv ((example_node 0.05)\<lparr>latest_messages := [''/odom'' \<mapsto> example_msg]\<rparr>) =
        Inr ((example_node 0.05)\<lparr>latest_messages := [''/odom'' \<mapsto> example_msg],
               logger := [(ERROR, CouldNotImport ''no_such/msg/Fix''), (INFO, NoDataToWrite)]\<rparr>, None)"
  (is "?d \<and> ?w0 \<and> ?i \<and> ?r \<and> ?t \<and> ?w1")
proof -
  have d: ?d by (simp add: example_node_def)
  have i: ?i by (simp add: example_init)
  have r: ?r by (simp add: message_callback_def example_node_def)
  have t: ?t by simp
  note e = empty_export_writes_nothing
    [of "example_node 0.05" example_env example_config "0.05" "''output.csv''" "example_node 0.05"
        "[Msg ''/odom'' example_msg]"
        "(example_node 0.05)\<lparr>latest_messages := [''/odom'' \<mapsto> example_msg]\<rparr>"]
  have w0: ?w0 using e [THEN conjunct1, THEN mp, OF d] by (simp add: example_node_def)
  have w1: ?w1 using e [THEN conjunct2, THEN mp, OF conjI, OF i conjI, OF r t]
    by (simp add: example_node_def)
  from d w0 i r t w1 show ?thesis by blast
qed

text \<open>
  C10. Duplicate output names are not rejected.  Construction keeps every configured
  name of the importable sources in \<open>self.fields\<close>, repeated names included.  In the
  row of a tick each name occurs once, and its value is the one the last field configured
  with that name yields on its own.  On export every cell is the value the row holds under
  the name of its column, so each column of a repeated name shows that one surviving value.
\<close>

theorem duplicate_name_last_wins:
  "((\<forall>sub\<in>set cfg. \<forall>e. get_message env (sub_message_type sub) \<noteq> Inl e)
        \<and> create_timer env i = None \<longrightarrow>
      (\<exists>n. DataRecorderNode_init env cfg i out = Inr n
         \<and> map name (self_fields n) =
             concat (map (\<lambda>sub. map cfg_name (sub_fields sub)) (filter (importable env) cfg))))
   \<and> (f \<in> set (self_fields m) \<longrightarrow>
      (\<exists>m' r v l. record_data m = Inr m' \<and> data m' = data m @ [r] \<and> distinct (map fst r)
         \<and> record_fields m [last (filter (\<lambda>g. name g = name f) (self_fields m))] []
              = Inr ([(name f, v)], l)
         \<and> map_of r (name f) = Some v))
   \<and> (DataRecorderNode_init env cfg i out = Inr n0 \<and> run n0 evs = Inr n1 \<and> data n1 \<noteq> [] \<longrightarrow>
      (\<exists>n' file. write_csv n1 = Inr (n', Some file) \<and> header file = map name (self_fields n1)
         \<and> list_all2 (\<lambda>r cells. list_all2 (\<lambda>c v. map_of r c = Some v) (header file) cells)
              (data n1) (body file)))"
proof -
  have a: "\<exists>n. DataRecorderNode_init env cfg i out = Inr n
         \<and> map name (self_fields n) =
             concat (map (\<lambda>sub. map cfg_name (sub_fields sub)) (filter (importable env) cfg))"
    if g: "\<forall>sub\<in>set cfg. \<forall>e. get_message env (sub_message_type sub) \<noteq> Inl e"
      and t: "create_timer env i = None"
  proof -
    from init_result [OF g, of out i]
    obtain m where r: "init_subscriptions env cfg (new_node out) = Inr m
     \<and> DataRecorderNode_init env cfg i out =
         (case create_timer env i of Some e \<Rightarrow> Inl e | None \<Rightarrow> Inr (m\<lparr>timer := Some i\<rparr>))
     \<and> data m = []
     \<and> self_fields m = concat (map field_specs_of (filter (importable env) cfg))
     \<and> logger m = map (\<lambda>sub. (ERROR, CouldNotImport (sub_message_type sub)))
                      (filter (\<lambda>sub. \<not> importable env sub) cfg)
     \<and> dom (recorded_subscriptions m) = sub_topic_name ` set (filter (importable env) cfg)
     \<and> dom (latest_messages m) = sub_topic_name ` set (filter (importable env) cfg)" ..
    define n where "n = m\<lparr>timer := Some i\<rparr>"
    from r t have n: "DataRecorderNode_init env cfg i out = Inr n"
      and s: "self_fields n = concat (map field_specs_of (filter (importable env) cfg))"
      by (simp_all add: n_def)
    from s have "map name (self_fields n) =
        concat (map (\<lambda>sub. map cfg_name (sub_fields sub)) (filter (importable env) cfg))"
      by (simp add: map_concat comp_def names_of_specs)
    with n show ?thesis by blast
  qed
  have b: "\<exists>m' r v l. record_data m = Inr m' \<and> data m' = data m @ [r] \<and> distinct (map fst r)
         \<and> record_fields m [last (filter (\<lambda>g. name g = name f) (self_fields m))] []
              = Inr ([(name f, v)], l)
         \<and> map_of r (name f) = Some v"
    if f: "f \<in> set (self_fields m)"
  proof -
    let ?lm = "latest_messages m"
    let ?same = "filter (\<lambda>g. name g = name f) (self_fields m)"
    let ?g = "last ?same"
    let ?r = "build_row ?lm (self_fields m) []"
    from f have ne: "?same \<noteq> []" by (auto simp: filter_empty_conv)
    then have "?g \<in> set ?same" by (rule last_in_set)
    then have ng: "name ?g = name f" by simp
    obtain lg where d: "record_data m = Inr (m\<lparr>logger := logger m @ lg, data := data m @ [?r]\<rparr>)"
      using record_data_result by blast
    obtain lg' where "record_fields m [?g] [] = Inr (build_row ?lm [?g] [], m\<lparr>logger := logger m @ lg'\<rparr>)"
      using record_fields_result by blast
    with ng have one: "record_fields m [?g] [] = Inr ([(name f, field_cell ?lm ?g)], m\<lparr>logger := logger m @ lg'\<rparr>)"
      by (simp add: build_row_def)
    from ne have "map_of ?r (name f) = Some (field_cell ?lm ?g)"
      by (simp add: build_row_lookup)
    moreover have "distinct (map fst ?r)" by (simp add: build_row_distinct)
    ultimately show ?thesis using d one by simp
  qed
  have c: "\<exists>n' file. write_csv n1 = Inr (n', Some file) \<and> header file = map name (self_fields n1)
         \<and> list_all2 (\<lambda>r cells. list_all2 (\<lambda>c v. map_of r c = Some v) (header file) cells)
              (data n1) (body file)"
    if i: "DataRecorderNode_init env cfg i out = Inr n0" and r: "run n0 evs = Inr n1"
      and d: "data n1 \<noteq> []"
  proof -
    let ?names = "map name (self_fields n1)"
    from reachable_rows(4) [OF i r]
    have "list_all (\<lambda>r. fst ` set r = set ?names) (data n1)" by (simp add: list_all_iff)
    then have "list_all2 (\<lambda>r cells. list_all2 (\<lambda>c v. map_of r c = Some v) ?names cells)
           (data n1) (map (row_cells ?names) (data n1))"
      by (rule cells_from_row)
    with write_csv_reachable [OF i r d] show ?thesis by simp
  qed
  from a b c show ?thesis by blast
qed

theorem duplicate_name_last_wins_witness:
  "(\<exists>n. DataRecorderNode_init example_env example_config 0.05 ''output.csv'' = Inr n
         \<and> map name (self_fields n) = [''x'', ''pose'', ''x''])
   \<and> \<lparr>name = ''x'', topic_name = ''/odom'', field_path = ''pose.x''\<rparr>
        \<in> set (self_fields example_node_msg)
   \<and> (\<exists>m' r l. record_data example_node_msg = Inr m' \<and> data m' = data example_node_msg @ [r]
         \<and> distinct (map fst r)
         \<and> record_fields example_node_msg
              [\<lparr>name = ''x'', topic_name = ''/odom'', field_path = ''pose.y''\<rparr>] []
              = Inr ([(''x'', PInt 7)], l)
         \<and> map_of r ''x'' = Some (PInt 7))
   \<and> (\<exists>n' file. write_csv example_node_ticked = Inr (n', Some file)
         \<and> header file = [''x'', ''pose'', ''x'']
         \<and> list_all2 (\<lambda>r cells. list_all2 (\<lambda>c v. map_of r c = Some v) (header file) cells)
              (data example_node_ticked) (body file))"
  (is "?a \<and> ?f \<and> ?b \<and> ?c")
proof -
  let ?fx = "\<lparr>name = ''x'', topic_name = ''/odom'', field_path = ''pose.x''\<rparr>"
  note t = duplicate_name_last_wins
    [of example_config example_env "0.05" "''output.csv''" ?fx example_node_msg
        "example_node 0.05" "[Tick, Msg ''/odom'' example_msg, Tick]" example_node_ticked]
  have g: "\<forall>sub\<in>set example_config. \<forall>e. get_message example_env (sub_message_type sub) \<noteq> Inl e"
    by (simp add: example_config_def example_env_def)
  have ct: "create_timer example_env 0.05 = None" by (simp add: example_env_def)
  have fl: "filter (importable example_env) example_config =
      [\<lparr>sub_topic_name = ''/odom'', sub_message_type = ''nav_msgs/msg/Odometry'',
       sub_fields = [\<lparr>cfg_name = ''x'', cfg_field_path = ''pose.x''\<rparr>,
                     \<lparr>cfg_name = ''pose'', cfg_field_path = ''pose''\<rparr>,
                     \<lparr>cfg_name = ''x'', cfg_field_path = ''pose.y''\<rparr>]\<rparr>]"
    by (simp add: example_config_def example_env_def importable_def)
  have a: ?a using t [THEN conjunct1, THEN mp, OF conjI, OF g ct] unfolding fl by simp
  have f: ?f by (simp add: example_node_msg_def example_node_def)
  have la: "last (filter (\<lambda>g. name g = name ?fx) (self_fields example_node_msg))
      = \<lparr>name = ''x'', topic_name = ''/odom'', field_path = ''pose.y''\<rparr>"
    by (simp add: example_node_msg_def example_node_def)
  have one: "record_fields example_node_msg
              [\<lparr>name = ''x'', topic_name = ''/odom'', field_path = ''pose.y''\<rparr>] []
       = Inr ([(''x'', PInt 7)], example_node_msg)"
    by (simp add: example_node_msg_def example_node_def dict_get_def example_msg_def
         get_field_value_def Let_def)
  from t [THEN conjunct2, THEN conjunct1, THEN mp, OF f]
  obtain m' r v l where m: "record_data example_node_msg = Inr m'"
     "data m' = data example_node_msg @ [r]" "distinct (map fst r)"
     and o: "record_fields example_node_msg
         [last (filter (\<lambda>g. name g = name ?fx) (self_fields example_node_msg))] []
              = Inr ([(name ?fx, v)], l)"
     and v: "map_of r (name ?fx) = Some v"
    by blast
  from o one have "v = PInt 7" and "l = example_node_msg" unfolding la by simp_all
  with m v one have b: ?b by auto
  have i: "DataRecorderNode_init example_env example_config 0.05 ''output.csv'' = Inr (example_node 0.05)"
    by (simp add: example_init)
  have d: "data example_node_ticked \<noteq> []" by (simp add: example_node_ticked_def)
  have s: "map name (self_fields example_node_ticked) = [''x'', ''pose'', ''x'']"
    by (simp add: example_node_ticked_def example_node_def)
  have c: ?c
    using t [THEN conjunct2, THEN conjunct2, THEN mp, OF conjI, OF i conjI, OF example_run_ticked d]
    unfolding s .
  from a f b c show ?thesis by blast
qed

end
